theory Spec2Isabelle
  imports Main "HOL-Library.Multiset"
begin

section \<open>TaskManager: request handlers over a relational store\<close>

text \<open>
  The program is \<^verbatim>\<open>src/server.js\<close>: an Express application whose handlers each send one
  parameterised statement to a MySQL pool and turn the outcome into a JSON response. The
  handlers are embedded as functions from the request and the store to a response and the
  store after the statement. The store is the pair of tables that \<^verbatim>\<open>initDatabase\<close> declares
  (lines 26-46); its statements are interpreted as that DDL prescribes: \<^verbatim>\<open>NOT NULL\<close>,
  \<^verbatim>\<open>UNIQUE\<close>, the column widths, the \<^verbatim>\<open>ENUM\<close> members, \<^verbatim>\<open>AUTO_INCREMENT\<close> and the foreign
  key with \<^verbatim>\<open>ON DELETE CASCADE\<close>, under the strict SQL mode that is the server's default.
  The index page, the static files and the parsing of the body by \<^verbatim>\<open>express.json()\<close> come
  before the handlers and are not part of the embedding.
\<close>

subsection \<open>Values of a request body\<close>

text \<open>
  A field of \<^verbatim>\<open>req.body\<close> is a scalar JSON value, or \<^verbatim>\<open>undefined\<close> when the key is absent.
  Numbers are the integers; arrays and nested objects as field values are outside the model.
  An object is the list of its properties in insertion order, keys distinct.
\<close>

datatype jsval = JUndefined | JNull | JBool bool | JNum int | JStr string

type_synonym obj = "(string \<times> jsval) list"

text \<open>Destructuring \<^verbatim>\<open>const { k } = req.body\<close>.\<close>

definition field :: "obj \<Rightarrow> string \<Rightarrow> jsval" where
  "field b k = (case map_of b k of None \<Rightarrow> JUndefined | Some v \<Rightarrow> v)"

text \<open>JavaScript truthiness and the operator \<^verbatim>\<open>a || b\<close>.\<close>

fun truthy :: "jsval \<Rightarrow> bool" where
  "truthy JUndefined = False"
| "truthy JNull = False"
| "truthy (JBool b) = b"
| "truthy (JNum n) = (n \<noteq> 0)"
| "truthy (JStr s) = (s \<noteq> [])"

definition or_else :: "jsval \<Rightarrow> jsval \<Rightarrow> jsval" where
  "or_else a b = (if truthy a then a else b)"

text \<open>
  Assigning a property keeps the position of a key that is already there; the object
  literal \<^verbatim>\<open>{ k: v, ...b }\<close> assigns the properties of \<open>b\<close> in order after \<open>k\<close>.
\<close>

fun set_prop :: "string \<Rightarrow> jsval \<Rightarrow> obj \<Rightarrow> obj" where
  "set_prop k v [] = [(k, v)]"
| "set_prop k v (p # ps) = (if fst p = k then (k, v) # ps else p # set_prop k v ps)"

definition spread :: "obj \<Rightarrow> obj \<Rightarrow> obj" where
  "spread base b = fold (\<lambda>p. set_prop (fst p) (snd p)) b base"

subsection \<open>Statement parameters and column types\<close>

text \<open>
  \<^verbatim>\<open>pool.query(sql, params)\<close> writes each parameter into the statement as an SQL literal:
  \<^verbatim>\<open>undefined\<close> and \<^verbatim>\<open>null\<close> as \<^verbatim>\<open>NULL\<close>, booleans as \<^verbatim>\<open>true\<close>/\<^verbatim>\<open>false\<close> (the
  integers 1 and 0), numbers and strings as themselves.
\<close>

datatype sqlval = SNull | SInt int | SStr string

fun escape :: "jsval \<Rightarrow> sqlval" where
  "escape JUndefined = SNull"
| "escape JNull = SNull"
| "escape (JBool b) = SInt (if b then 1 else 0)"
| "escape (JNum n) = SInt n"
| "escape (JStr s) = SStr s"

datatype sql_error =
    Unreachable string
  | BadNull string
  | DataTooLong string
  | DataTruncated string
  | IncorrectInteger string
  | TruncatedValue string
  | DupEntry string
  | NoReferencedRow

text \<open>\<^verbatim>\<open>error.message\<close>: the driver's text for a lost connection, the server's otherwise.\<close>

fun message :: "sql_error \<Rightarrow> string" where
  "message (Unreachable m) = m"
| "message (BadNull c) = ''Column '' @ c @ '' cannot be null''"
| "message (DataTooLong c) = ''Data too long for column '' @ c"
| "message (DataTruncated c) = ''Data truncated for column '' @ c"
| "message (IncorrectInteger c) = ''Incorrect integer value for column '' @ c"
| "message (TruncatedValue v) = ''Truncated incorrect DOUBLE value: '' @ v"
| "message (DupEntry v) = ''Duplicate entry '' @ v @ '' for key users.email''"
| "message NoReferencedRow =
     ''Cannot add or update a child row: a foreign key constraint fails''"

text \<open>Decimal numerals, for a number stored in a text column and a numeral sent as text.\<close>

fun text_of_nat :: "nat \<Rightarrow> string" where
  "text_of_nat n =
     (if n < 10 then [''0123456789'' ! n]
      else text_of_nat (n div 10) @ [''0123456789'' ! (n mod 10)])"

definition text_of_int :: "int \<Rightarrow> string" where
  "text_of_int i = (if i < 0 then CHR ''-'' # text_of_nat (nat (- i)) else text_of_nat (nat i))"

definition digit_val :: "char \<Rightarrow> nat option" where
  "digit_val c = map_of (zip ''0123456789'' [0, 1, 2, 3, 4, 5, 6, 7, 8, 9]) c"

fun nat_of_digits :: "nat \<Rightarrow> string \<Rightarrow> nat option" where
  "nat_of_digits acc [] = Some acc"
| "nat_of_digits acc (c # cs) =
     (case digit_val c of None \<Rightarrow> None | Some d \<Rightarrow> nat_of_digits (10 * acc + d) cs)"

definition int_of_text :: "string \<Rightarrow> int option" where
  "int_of_text s =
     (case s of
        [] \<Rightarrow> None
      | c # cs \<Rightarrow>
          if c = CHR ''-''
          then (if cs = [] then None else map_option (\<lambda>n. - int n) (nat_of_digits 0 cs))
          else map_option int (nat_of_digits 0 s))"

text \<open>
  A text column of width \<open>w\<close> takes a text of at most \<open>w\<close> characters; characters beyond
  the width are cut when they are all spaces and refused otherwise.
\<close>

definition fit :: "nat \<Rightarrow> string \<Rightarrow> string option" where
  "fit w s = (if list_all (\<lambda>c. c = CHR '' '') (drop w s) then Some (take w s) else None)"

fun text_of :: "sqlval \<Rightarrow> string option" where
  "text_of SNull = None"
| "text_of (SInt n) = Some (text_of_int n)"
| "text_of (SStr s) = Some s"

text \<open>\<^verbatim>\<open>VARCHAR(w) NOT NULL\<close> (name, email, title).\<close>

definition varchar_not_null :: "string \<Rightarrow> nat \<Rightarrow> sqlval \<Rightarrow> sql_error + string" where
  "varchar_not_null col w v =
     (case text_of v of
        None \<Rightarrow> Inl (BadNull col)
      | Some s \<Rightarrow> (case fit w s of None \<Rightarrow> Inl (DataTooLong col) | Some t \<Rightarrow> Inr t))"

text \<open>\<^verbatim>\<open>TEXT\<close>, nullable (description): 65535 characters.\<close>

definition text_null :: "string \<Rightarrow> sqlval \<Rightarrow> sql_error + string option" where
  "text_null col v =
     (case text_of v of
        None \<Rightarrow> Inr None
      | Some s \<Rightarrow> (case fit 65535 s of None \<Rightarrow> Inl (DataTooLong col) | Some t \<Rightarrow> Inr (Some t)))"

text \<open>
  \<^verbatim>\<open>INT NOT NULL\<close> (user_id): an integer, or a text that is a decimal numeral; any other
  text is refused.
\<close>

definition int_not_null :: "string \<Rightarrow> sqlval \<Rightarrow> sql_error + int" where
  "int_not_null col v =
     (case v of
        SNull \<Rightarrow> Inl (BadNull col)
      | SInt n \<Rightarrow> Inr n
      | SStr s \<Rightarrow> (case int_of_text s of None \<Rightarrow> Inl (IncorrectInteger col) | Some n \<Rightarrow> Inr n))"

text \<open>
  \<^verbatim>\<open>ENUM('pending', 'in_progress', 'completed')\<close>, nullable (status): \<^verbatim>\<open>NULL\<close>, a member
  by its name, or a member by its index from 1, the index as a number or as a numeral in
  a text. Names are compared as they are written. Anything else is refused.
\<close>

datatype status = Pending | In_progress | Completed

fun status_name :: "status \<Rightarrow> string" where
  "status_name Pending = ''pending''"
| "status_name In_progress = ''in_progress''"
| "status_name Completed = ''completed''"

definition status_at :: "int \<Rightarrow> status option" where
  "status_at n =
     (if n = 1 then Some Pending else if n = 2 then Some In_progress
      else if n = 3 then Some Completed else None)"

definition status_named :: "string \<Rightarrow> status option" where
  "status_named s =
     (if s = ''pending'' then Some Pending else if s = ''in_progress'' then Some In_progress
      else if s = ''completed'' then Some Completed else None)"

definition enum_null :: "string \<Rightarrow> sqlval \<Rightarrow> sql_error + status option" where
  "enum_null col v =
     (case v of
        SNull \<Rightarrow> Inr None
      | SInt n \<Rightarrow> (case status_at n of None \<Rightarrow> Inl (DataTruncated col) | Some m \<Rightarrow> Inr (Some m))
      | SStr s \<Rightarrow>
          (case status_named s of
             Some m \<Rightarrow> Inr (Some m)
           | None \<Rightarrow>
               (case Option.bind (int_of_text s) status_at of
                  None \<Rightarrow> Inl (DataTruncated col)
                | Some m \<Rightarrow> Inr (Some m))))"

subsection \<open>The store\<close>

record user_row =
  u_id :: int
  u_name :: string
  u_email :: string
  u_created_at :: int

record task_row =
  t_id :: int
  t_user_id :: int
  t_title :: string
  t_description :: "string option"
  t_status :: "status option"
  t_created_at :: int
  t_updated_at :: int

text \<open>
  The tables in storage order, and the two \<^verbatim>\<open>AUTO_INCREMENT\<close> counters. Timestamps are
  instants on an integer clock; \<^verbatim>\<open>CURRENT_TIMESTAMP\<close> is the instant \<open>now\<close> of the statement.
\<close>

record store =
  users :: "user_row list"
  tasks :: "task_row list"
  next_user_id :: int
  next_task_id :: int

definition empty_store :: store where
  "empty_store = \<lparr>users = [], tasks = [], next_user_id = 1, next_task_id = 1\<rparr>"

text \<open>A row of the listing of tasks: \<^verbatim>\<open>t.*, u.name as user_name, u.email as user_email\<close>.\<close>

record task_view =
  v_task :: task_row
  user_name :: string
  user_email :: string

text \<open>
  A statement runs on the store and yields an error or a result, and the store after it.
\<close>

type_synonym 'a stmt = "store \<Rightarrow> (sql_error + 'a) \<times> store"

text \<open>
  \<^verbatim>\<open>INSERT INTO users (name, email) VALUES (?, ?)\<close>. The values are checked against
  their columns first; then the counter is drawn, and the row is written unless its email
  is already there (\<^verbatim>\<open>UNIQUE\<close>, emails compared as they are written). An insert refused
  for its key leaves a gap in the numbering.
\<close>

definition insert_user :: "int \<Rightarrow> sqlval \<Rightarrow> sqlval \<Rightarrow> int stmt" where
  "insert_user now name email s =
     (case varchar_not_null ''name'' 100 name of
        Inl e \<Rightarrow> (Inl e, s)
      | Inr n \<Rightarrow>
     (case varchar_not_null ''email'' 100 email of
        Inl e \<Rightarrow> (Inl e, s)
      | Inr m \<Rightarrow>
          let i = next_user_id s; s1 = s\<lparr>next_user_id := i + 1\<rparr> in
          if m \<in> set (map u_email (users s)) then (Inl (DupEntry m), s1)
          else (Inr i, s1\<lparr>users := users s @
                  [\<lparr>u_id = i, u_name = n, u_email = m, u_created_at = now\<rparr>]\<rparr>)))"

text \<open>
  \<^verbatim>\<open>INSERT INTO tasks (user_id, title, description, status) VALUES (?, ?, ?, ?)\<close>, in the
  same way; the row is written when its \<open>user_id\<close> is the id of a user
  (\<^verbatim>\<open>FOREIGN KEY (user_id) REFERENCES users(id)\<close>).
\<close>

definition insert_task :: "int \<Rightarrow> sqlval \<Rightarrow> sqlval \<Rightarrow> sqlval \<Rightarrow> sqlval \<Rightarrow> int stmt" where
  "insert_task now user_id title description status s =
     (case int_not_null ''user_id'' user_id of
        Inl e \<Rightarrow> (Inl e, s)
      | Inr u \<Rightarrow>
     (case varchar_not_null ''title'' 200 title of
        Inl e \<Rightarrow> (Inl e, s)
      | Inr t \<Rightarrow>
     (case text_null ''description'' description of
        Inl e \<Rightarrow> (Inl e, s)
      | Inr d \<Rightarrow>
     (case enum_null ''status'' status of
        Inl e \<Rightarrow> (Inl e, s)
      | Inr st \<Rightarrow>
          let i = next_task_id s; s1 = s\<lparr>next_task_id := i + 1\<rparr> in
          if u \<in> set (map u_id (users s))
          then (Inr i, s1\<lparr>tasks := tasks s @
                  [\<lparr>t_id = i, t_user_id = u, t_title = t, t_description = d, t_status = st,
                    t_created_at = now, t_updated_at = now\<rparr>]\<rparr>)
          else (Inl NoReferencedRow, s1)))))"

text \<open>
  The parameter of \<^verbatim>\<open>WHERE id = ?\<close>. The handlers send the path segment, a text: it
  selects the rows whose id is the integer it writes as a decimal numeral (so \<^verbatim>\<open>007\<close>
  selects the id 7), and a text that is no numeral is refused by a statement that changes
  data. \<^verbatim>\<open>NULL\<close> selects no row.
\<close>

definition where_id :: "sqlval \<Rightarrow> sql_error + int option" where
  "where_id v =
     (case v of
        SNull \<Rightarrow> Inr None
      | SInt n \<Rightarrow> Inr (Some n)
      | SStr x \<Rightarrow> (case int_of_text x of None \<Rightarrow> Inl (TruncatedValue x) | Some n \<Rightarrow> Inr (Some n)))"

text \<open>
  \<^verbatim>\<open>UPDATE tasks SET title = ?, description = ?, status = ? WHERE id = ?\<close>. The values are
  checked against their columns when a row is written: with no row of that id nothing is
  checked and nothing changes. \<^verbatim>\<open>updated_at\<close> follows \<^verbatim>\<open>ON UPDATE CURRENT_TIMESTAMP\<close>: it
  moves when the row changes.
\<close>

definition write_task :: "int \<Rightarrow> string \<Rightarrow> string option \<Rightarrow> status option \<Rightarrow> task_row \<Rightarrow> task_row" where
  "write_task now t d st r =
     (if t_title r = t \<and> t_description r = d \<and> t_status r = st then r
      else r\<lparr>t_title := t, t_description := d, t_status := st, t_updated_at := now\<rparr>)"

definition update_task :: "int \<Rightarrow> sqlval \<Rightarrow> sqlval \<Rightarrow> sqlval \<Rightarrow> sqlval \<Rightarrow> unit stmt" where
  "update_task now title description status id_param s =
     (case where_id id_param of
        Inl e \<Rightarrow> (Inl e, s)
      | Inr None \<Rightarrow> (Inr (), s)
      | Inr (Some i) \<Rightarrow>
          if i \<in> set (map t_id (tasks s)) then
            (case varchar_not_null ''title'' 200 title of
               Inl e \<Rightarrow> (Inl e, s)
             | Inr t \<Rightarrow>
            (case text_null ''description'' description of
               Inl e \<Rightarrow> (Inl e, s)
             | Inr d \<Rightarrow>
            (case enum_null ''status'' status of
               Inl e \<Rightarrow> (Inl e, s)
             | Inr st \<Rightarrow>
                 (Inr (), s\<lparr>tasks := map (\<lambda>r. if t_id r = i then write_task now t d st r else r)
                                        (tasks s)\<rparr>))))
          else (Inr (), s))"

text \<open>\<^verbatim>\<open>DELETE FROM tasks WHERE id = ?\<close>.\<close>

definition delete_task :: "sqlval \<Rightarrow> unit stmt" where
  "delete_task id_param s =
     (case where_id id_param of
        Inl e \<Rightarrow> (Inl e, s)
      | Inr None \<Rightarrow> (Inr (), s)
      | Inr (Some i) \<Rightarrow> (Inr (), s\<lparr>tasks := filter (\<lambda>r. t_id r \<noteq> i) (tasks s)\<rparr>))"

text \<open>
  \<^verbatim>\<open>SELECT * FROM users ORDER BY created_at DESC\<close>. Rows of one instant keep their storage
  order (the sort is stable).
\<close>

definition select_users :: "user_row list stmt" where
  "select_users s = (Inr (sort_key (\<lambda>u. - u_created_at u) (users s)), s)"

text \<open>
  \<^verbatim>\<open>SELECT t.*, u.name as user_name, u.email as user_email FROM tasks t
  JOIN users u ON t.user_id = u.id ORDER BY t.created_at DESC\<close>.
\<close>

definition join_users :: "user_row list \<Rightarrow> task_row \<Rightarrow> task_view list" where
  "join_users us t =
     map (\<lambda>u. \<lparr>v_task = t, user_name = u_name u, user_email = u_email u\<rparr>)
       (filter (\<lambda>u. t_user_id t = u_id u) us)"

definition select_tasks :: "task_view list stmt" where
  "select_tasks s =
     (Inr (sort_key (\<lambda>v. - t_created_at (v_task v))
             (concat (map (join_users (users s)) (tasks s)))), s)"

text \<open>\<^verbatim>\<open>SELECT 1\<close>.\<close>

definition select_1 :: "unit stmt" where
  "select_1 s = (Inr (), s)"

text \<open>
  Deleting a row of \<^verbatim>\<open>users\<close>, as the foreign key of \<^verbatim>\<open>tasks\<close> defines it (line 44,
  \<^verbatim>\<open>ON DELETE CASCADE\<close>): the tasks that reference the row go with it. No handler issues
  this statement; it reaches the store from outside the application.
\<close>

definition delete_user :: "int \<Rightarrow> store \<Rightarrow> store" where
  "delete_user i s =
     s\<lparr>users := filter (\<lambda>u. u_id u \<noteq> i) (users s),
       tasks := filter (\<lambda>r. t_user_id r \<noteq> i) (tasks s)\<rparr>"

subsection \<open>The pool\<close>

text \<open>
  Whether the statement of a request reaches the server is given from outside: the link
  is up, or down with the driver's error message.
\<close>

datatype link = Up | Down string

definition pool_query :: "link \<Rightarrow> 'a stmt \<Rightarrow> 'a stmt" where
  "pool_query lk q s = (case lk of Down m \<Rightarrow> (Inl (Unreachable m), s) | Up \<Rightarrow> q s)"

subsection \<open>Responses\<close>

text \<open>
  The body of a response: an object, the rows of a listing, or the healthy report
  \<^verbatim>\<open>{ status: 'healthy', database: 'connected', timestamp: new Date() }\<close> with its instant.
\<close>

datatype resp_body =
    Obj obj
  | UserRows "user_row list"
  | TaskRows "task_view list"
  | Healthy int

record response =
  code :: nat
  body :: resp_body

text \<open>\<^verbatim>\<open>res.status(c).json(o)\<close>; a property whose value is \<^verbatim>\<open>undefined\<close> is not written.\<close>

definition res_json :: "nat \<Rightarrow> obj \<Rightarrow> response" where
  "res_json c ob = \<lparr>code = c, body = Obj (filter (\<lambda>p. snd p \<noteq> JUndefined) ob)\<rparr>"

definition res_error :: "sql_error \<Rightarrow> response" where
  "res_error e = res_json 500 [(''error'', JStr (message e))]"

subsection \<open>The handlers\<close>

text \<open>\<^verbatim>\<open>app.get('/health')\<close>, lines 112-119.\<close>

definition get_health :: "link \<Rightarrow> int \<Rightarrow> store \<Rightarrow> response \<times> store" where
  "get_health lk now s =
     (case pool_query lk select_1 s of
        (Inr _, s') \<Rightarrow> (\<lparr>code = 200, body = Healthy now\<rparr>, s')
      | (Inl e, s') \<Rightarrow>
          (res_json 500 [(''status'', JStr ''unhealthy''), (''error'', JStr (message e))], s'))"

text \<open>\<^verbatim>\<open>app.get('/api/users')\<close>, lines 122-129.\<close>

definition get_users :: "link \<Rightarrow> store \<Rightarrow> response \<times> store" where
  "get_users lk s =
     (case pool_query lk select_users s of
        (Inr rows, s') \<Rightarrow> (\<lparr>code = 200, body = UserRows rows\<rparr>, s')
      | (Inl e, s') \<Rightarrow> (res_error e, s'))"

text \<open>\<^verbatim>\<open>app.post('/api/users')\<close>, lines 131-142.\<close>

definition post_users :: "link \<Rightarrow> int \<Rightarrow> obj \<Rightarrow> store \<Rightarrow> response \<times> store" where
  "post_users lk now b s =
     (let name = field b ''name''; email = field b ''email'' in
      case pool_query lk (insert_user now (escape name) (escape email)) s of
        (Inr insertId, s') \<Rightarrow>
          (res_json 201 [(''id'', JNum insertId), (''name'', name), (''email'', email)], s')
      | (Inl e, s') \<Rightarrow> (res_error e, s'))"

text \<open>\<^verbatim>\<open>app.get('/api/tasks')\<close>, lines 145-157.\<close>

definition get_tasks :: "link \<Rightarrow> store \<Rightarrow> response \<times> store" where
  "get_tasks lk s =
     (case pool_query lk select_tasks s of
        (Inr rows, s') \<Rightarrow> (\<lparr>code = 200, body = TaskRows rows\<rparr>, s')
      | (Inl e, s') \<Rightarrow> (res_error e, s'))"

text \<open>\<^verbatim>\<open>app.post('/api/tasks')\<close>, lines 159-170.\<close>

definition post_tasks :: "link \<Rightarrow> int \<Rightarrow> obj \<Rightarrow> store \<Rightarrow> response \<times> store" where
  "post_tasks lk now b s =
     (let user_id = field b ''user_id''; title = field b ''title'';
          description = field b ''description''; status = field b ''status'' in
      case pool_query lk
             (insert_task now (escape user_id) (escape title) (escape description)
                (escape (or_else status (JStr ''pending'')))) s of
        (Inr insertId, s') \<Rightarrow> (res_json 201 (spread [(''id'', JNum insertId)] b), s')
      | (Inl e, s') \<Rightarrow> (res_error e, s'))"

text \<open>
  \<^verbatim>\<open>app.put('/api/tasks/:id')\<close>, lines 172-184. \<^verbatim>\<open>req.params.id\<close> is the path segment,
  a string: it is the last parameter of the statement and it is the \<open>id\<close> of the
  confirmation, as it came.
\<close>

definition put_task :: "link \<Rightarrow> int \<Rightarrow> string \<Rightarrow> obj \<Rightarrow> store \<Rightarrow> response \<times> store" where
  "put_task lk now seg b s =
     (let id_param = JStr seg;
          title = field b ''title''; description = field b ''description'';
          status = field b ''status'' in
      case pool_query lk
             (update_task now (escape title) (escape description) (escape status)
                (escape id_param)) s of
        (Inr _, s') \<Rightarrow>
          (res_json 200 [(''message'', JStr ''Task updated''), (''id'', id_param)], s')
      | (Inl e, s') \<Rightarrow> (res_error e, s'))"

text \<open>\<^verbatim>\<open>app.delete('/api/tasks/:id')\<close>, lines 186-194.\<close>

definition delete_task_h :: "link \<Rightarrow> string \<Rightarrow> store \<Rightarrow> response \<times> store" where
  "delete_task_h lk seg s =
     (let id_param = JStr seg in
      case pool_query lk (delete_task (escape id_param)) s of
        (Inr _, s') \<Rightarrow>
          (res_json 200 [(''message'', JStr ''Task deleted''), (''id'', id_param)], s')
      | (Inl e, s') \<Rightarrow> (res_error e, s'))"

text \<open>The routes of the application that reach the store.\<close>

datatype request =
    Health
  | ListUsers
  | CreateUser obj
  | ListTasks
  | CreateTask obj
  | UpdateTask string obj
  | DeleteTask string

definition handle :: "link \<Rightarrow> int \<Rightarrow> request \<Rightarrow> store \<Rightarrow> response \<times> store" where
  "handle lk now req s =
     (case req of
        Health \<Rightarrow> get_health lk now s
      | ListUsers \<Rightarrow> get_users lk s
      | CreateUser b \<Rightarrow> post_users lk now b s
      | ListTasks \<Rightarrow> get_tasks lk s
      | CreateTask b \<Rightarrow> post_tasks lk now b s
      | UpdateTask seg b \<Rightarrow> put_task lk now seg b s
      | DeleteTask seg \<Rightarrow> delete_task_h lk seg s)"

subsection \<open>Startup\<close>

text \<open>
  Lines 21-53 and 199-206. \<^verbatim>\<open>initDatabase\<close> awaits the two \<^verbatim>\<open>CREATE TABLE IF NOT EXISTS\<close>
  statements in turn; an error of either is rethrown and rejects the promise. The
  \<^verbatim>\<open>then\<close> callback calls \<^verbatim>\<open>app.listen\<close>, the \<^verbatim>\<open>catch\<close> callback calls
  \<^verbatim>\<open>process.exit(1)\<close>. The process is followed by its point of control; the outcome of
  each statement is given from outside.
\<close>

datatype pc =
    AwaitUsers
  | AwaitTasks
  | Resolved
  | Rejected sql_error
  | Listening
  | Exited int

fun tick :: "sql_error + unit \<Rightarrow> sql_error + unit \<Rightarrow> pc \<Rightarrow> pc" where
  "tick o1 o2 AwaitUsers = (case o1 of Inr _ \<Rightarrow> AwaitTasks | Inl e \<Rightarrow> Rejected e)"
| "tick o1 o2 AwaitTasks = (case o2 of Inr _ \<Rightarrow> Resolved | Inl e \<Rightarrow> Rejected e)"
| "tick o1 o2 Resolved = Listening"
| "tick o1 o2 (Rejected e) = Exited 1"
| "tick o1 o2 Listening = Listening"
| "tick o1 o2 (Exited n) = Exited n"

text \<open>The point of control after \<open>k\<close> steps, and whether requests are accepted there.\<close>

definition boot :: "sql_error + unit \<Rightarrow> sql_error + unit \<Rightarrow> nat \<Rightarrow> pc" where
  "boot o1 o2 k = (tick o1 o2 ^^ k) AwaitUsers"

definition accepting :: "pc \<Rightarrow> bool" where
  "accepting p = (p = Listening)"

subsection \<open>Reachable stores, parsed bodies, examples\<close>

text \<open>
  The stores the application can be in: the empty tables, any request served, any user
  row deleted.
\<close>

inductive reachable :: "store \<Rightarrow> bool" where
  start: "reachable empty_store"
| served: "reachable s \<Longrightarrow> reachable (snd (handle lk now req s))"
| user_deleted: "reachable s \<Longrightarrow> reachable (delete_user i s)"

text \<open>A body as \<^verbatim>\<open>express.json()\<close> parses it: keys distinct, no value \<^verbatim>\<open>undefined\<close>.\<close>

definition json_object :: "obj \<Rightarrow> bool" where
  "json_object b = (distinct (map fst b) \<and> JUndefined \<notin> set (map snd b))"

text \<open>The \<open>user_id\<close> of a body references a row of \<^verbatim>\<open>users\<close>.\<close>

definition resolves :: "jsval \<Rightarrow> store \<Rightarrow> bool" where
  "resolves v s =
     (case int_not_null ''user_id'' (escape v) of
        Inl _ \<Rightarrow> False
      | Inr n \<Rightarrow> n \<in> set (map u_id (users s)))"

text \<open>How many users carry an email.\<close>

definition count_email :: "string \<Rightarrow> store \<Rightarrow> nat" where
  "count_email e s = length (filter (\<lambda>u. u_email u = e) (users s))"

text \<open>Every task references a row of users: the foreign key of \<^verbatim>\<open>tasks\<close> (line 44).\<close>

definition fk_holds :: "store \<Rightarrow> bool" where
  "fk_holds s = list_all (\<lambda>t. t_user_id t \<in> set (map u_id (users s))) (tasks s)"

text \<open>Example stores: one user; the same with one task of that user.\<close>

definition ann :: user_row where
  "ann = \<lparr>u_id = 1, u_name = ''Ann'', u_email = ''ann@example.com'', u_created_at = 10\<rparr>"

definition report :: task_row where
  "report = \<lparr>t_id = 1, t_user_id = 1, t_title = ''Write report'', t_description = None,
             t_status = Some Pending, t_created_at = 12, t_updated_at = 12\<rparr>"

definition store1 :: store where
  "store1 = \<lparr>users = [ann], tasks = [], next_user_id = 2, next_task_id = 1\<rparr>"

definition store2 :: store where
  "store2 = \<lparr>users = [ann], tasks = [report], next_user_id = 2, next_task_id = 2\<rparr>"

text \<open>
  Two users and three tasks, created at different instants; the last task references an
  id that no user carries.
\<close>

definition bob :: user_row where
  "bob = \<lparr>u_id = 2, u_name = ''Bob'', u_email = ''bob@example.com'', u_created_at = 11\<rparr>"

definition review :: task_row where
  "review = \<lparr>t_id = 2, t_user_id = 2, t_title = ''Review'', t_description = Some ''Second pass'',
             t_status = Some In_progress, t_created_at = 15, t_updated_at = 16\<rparr>"

definition stray :: task_row where
  "stray = \<lparr>t_id = 3, t_user_id = 9, t_title = ''Stray'', t_description = None,
            t_status = None, t_created_at = 13, t_updated_at = 13\<rparr>"

definition store3 :: store where
  "store3 = \<lparr>users = [ann, bob], tasks = [report, review, stray],
             next_user_id = 3, next_task_id = 4\<rparr>"

section \<open>Properties\<close>

subsection \<open>Auxiliary facts\<close>

lemma fit_short: "length s \<le> w \<Longrightarrow> fit w s = Some s"
  by (simp add: fit_def)

lemma where_id_numeral: "int_of_text seg = Some n \<Longrightarrow> where_id (SStr seg) = Inr (Some n)"
  by (simp add: where_id_def)

subsection \<open>Creating a user whose email is taken\<close>

text \<open>
  Claim C1. In a store where exactly one user has the email \<open>e\<close>, a request to create a
  user with that email is answered with status 500 and leaves the rows of users as they
  were, so that still exactly one user has the email. The response is the error of the
  first check that refuses the insert: with the link up and a name the column takes, that
  is the duplicate entry for the unique key on email.
\<close>

theorem duplicate_email_rejected:
  assumes one: "count_email e s = 1"
    and same: "field b ''email'' = JStr e"
    and width: "length e \<le> 100"
  shows "fst (post_users lk now b s) =
           res_error (case lk of
                        Down m \<Rightarrow> Unreachable m
                      | Up \<Rightarrow> (case varchar_not_null ''name'' 100 (escape (field b ''name'')) of
                                 Inl err \<Rightarrow> err
                               | Inr n \<Rightarrow> DupEntry e))
         \<and> code (fst (post_users lk now b s)) = 500
         \<and> users (snd (post_users lk now b s)) = users s
         \<and> count_email e (snd (post_users lk now b s)) = 1"
proof -
  have "filter (\<lambda>u. u_email u = e) (users s) \<noteq> []"
    using one by (auto simp: count_email_def)
  then have stored: "e \<in> set (map u_email (users s))"
    by (auto simp: filter_empty_conv)
  have col: "varchar_not_null ''email'' 100 (escape (JStr e)) = Inr e"
    using width by (simp add: varchar_not_null_def fit_short)
  have resp: "fst (post_users lk now b s) =
           res_error (case lk of
                        Down m \<Rightarrow> Unreachable m
                      | Up \<Rightarrow> (case varchar_not_null ''name'' 100 (escape (field b ''name'')) of
                                 Inl err \<Rightarrow> err
                               | Inr n \<Rightarrow> DupEntry e))"
    using stored col same
    by (cases lk)
      (auto simp: post_users_def pool_query_def insert_user_def Let_def split: sum.splits)
  have keep: "users (snd (post_users lk now b s)) = users s"
    using stored col same
    by (cases lk)
      (auto simp: post_users_def pool_query_def insert_user_def Let_def split: sum.splits)
  show ?thesis
    using resp keep one by (simp add: res_error_def res_json_def count_email_def)
qed

theorem duplicate_email_rejected_witness:
  "count_email ''ann@example.com'' store1 = 1
   \<and> fst (post_users Up 11 [(''name'', JStr ''Bob''), (''email'', JStr ''ann@example.com'')] store1)
       = res_error (DupEntry ''ann@example.com'')
   \<and> code (fst (post_users Up 11 [(''name'', JStr ''Bob''), (''email'', JStr ''ann@example.com'')] store1)) = 500
   \<and> users (snd (post_users Up 11 [(''name'', JStr ''Bob''), (''email'', JStr ''ann@example.com'')] store1)) = [ann]"
proof -
  have one: "count_email ''ann@example.com'' store1 = 1"
    by (simp add: count_email_def store1_def ann_def)
  have same: "field [(''name'', JStr ''Bob''), (''email'', JStr ''ann@example.com'')] ''email''
                = JStr ''ann@example.com''"
    by (simp add: field_def)
  have width: "length ''ann@example.com'' \<le> 100" by simp
  have name: "varchar_not_null ''name'' 100
      (escape (field [(''name'', JStr ''Bob''), (''email'', JStr ''ann@example.com'')] ''name'')) = Inr ''Bob''"
    by (simp add: field_def varchar_not_null_def fit_def)
  have u: "users store1 = [ann]"
    by (simp add: store1_def)
  show ?thesis
    using duplicate_email_rejected [OF one same width, of Up 11] one name u
    by (simp add: res_error_def res_json_def)
qed

subsection \<open>Creating a task for an unknown user\<close>

text \<open>
  Claim C2. A request to create a task whose \<open>user_id\<close> does not reference a row of
  users (it is absent, null, not a numeral, or the id of no user) is answered with
  status 500, and the rows of tasks are exactly as before the request.
\<close>

theorem unknown_owner_rejected:
  assumes "\<not> resolves (field b ''user_id'') s"
  shows "code (fst (post_tasks lk now b s)) = 500
         \<and> tasks (snd (post_tasks lk now b s)) = tasks s
         \<and> users (snd (post_tasks lk now b s)) = users s"
proof (cases lk)
  case (Down m)
  then show ?thesis
    by (simp add: post_tasks_def pool_query_def res_error_def res_json_def)
next
  case Up
  show ?thesis
  proof (cases "int_not_null ''user_id'' (escape (field b ''user_id''))")
    case (Inl e)
    with Up show ?thesis
      by (simp add: post_tasks_def pool_query_def insert_task_def res_error_def res_json_def)
  next
    case (Inr n)
    with assms have "n \<notin> set (map u_id (users s))"
      by (simp add: resolves_def)
    with Up Inr show ?thesis
      by (auto simp: post_tasks_def pool_query_def insert_task_def Let_def res_error_def
          res_json_def split: sum.splits)
  qed
qed

theorem unknown_owner_rejected_witness:
  "\<not> resolves (field [(''user_id'', JNum 7), (''title'', JStr ''Plan'')] ''user_id'') store1
   \<and> fst (post_tasks Up 12 [(''user_id'', JNum 7), (''title'', JStr ''Plan'')] store1)
       = res_error NoReferencedRow
   \<and> code (fst (post_tasks Up 12 [(''user_id'', JNum 7), (''title'', JStr ''Plan'')] store1)) = 500
   \<and> tasks (snd (post_tasks Up 12 [(''user_id'', JNum 7), (''title'', JStr ''Plan'')] store1)) = []"
proof -
  have h: "\<not> resolves (field [(''user_id'', JNum 7), (''title'', JStr ''Plan'')] ''user_id'') store1"
    by (simp add: resolves_def field_def int_not_null_def store1_def ann_def)
  have r: "fst (post_tasks Up 12 [(''user_id'', JNum 7), (''title'', JStr ''Plan'')] store1)
             = res_error NoReferencedRow"
    by (simp add: post_tasks_def pool_query_def insert_task_def field_def int_not_null_def
        varchar_not_null_def text_null_def enum_null_def status_named_def or_else_def fit_def
        store1_def ann_def)
  have t: "tasks store1 = []"
    by (simp add: store1_def)
  show ?thesis
    using unknown_owner_rejected [OF h, of Up 12] h r t by simp
qed

subsection \<open>Updating and deleting a task that is not there\<close>

text \<open>
  Claim C4. For a path id that writes the id of no task, with the store reachable,
  updating and deleting both answer with status 200 and a confirmation whose \<open>id\<close> is
  the path id as it came, and the store is the one before the request; in particular it
  holds as many tasks as before. This is so for every body of the update, since no row
  is written.
\<close>

theorem missing_task_is_success:
  assumes numeral: "int_of_text seg = Some n"
    and missing: "n \<notin> set (map t_id (tasks s))"
  shows "put_task Up now seg b s =
           (\<lparr>code = 200,
             body = Obj [(''message'', JStr ''Task updated''), (''id'', JStr seg)]\<rparr>, s)
         \<and> delete_task_h Up seg s =
           (\<lparr>code = 200,
             body = Obj [(''message'', JStr ''Task deleted''), (''id'', JStr seg)]\<rparr>, s)
         \<and> length (tasks (snd (put_task Up now seg b s))) = length (tasks s)
         \<and> length (tasks (snd (delete_task_h Up seg s))) = length (tasks s)"
proof -
  note key = where_id_numeral [OF numeral]
  have upd: "put_task Up now seg b s =
           (\<lparr>code = 200,
             body = Obj [(''message'', JStr ''Task updated''), (''id'', JStr seg)]\<rparr>, s)"
    using missing
    by (simp add: put_task_def pool_query_def update_task_def key res_json_def)
  have "filter (\<lambda>r. t_id r \<noteq> n) (tasks s) = tasks s"
    using missing by (auto simp: filter_id_conv)
  then have del: "delete_task_h Up seg s =
           (\<lparr>code = 200,
             body = Obj [(''message'', JStr ''Task deleted''), (''id'', JStr seg)]\<rparr>, s)"
    by (simp add: delete_task_h_def pool_query_def delete_task_def key res_json_def)
  show ?thesis
    by (simp add: upd del)
qed

theorem missing_task_is_success_witness:
  "int_of_text ''007'' = Some 7
   \<and> 7 \<notin> set (map t_id (tasks store2))
   \<and> put_task Up 20 ''007'' [(''title'', JStr ''Other'')] store2 =
       (\<lparr>code = 200, body = Obj [(''message'', JStr ''Task updated''), (''id'', JStr ''007'')]\<rparr>, store2)
   \<and> delete_task_h Up ''007'' store2 =
       (\<lparr>code = 200, body = Obj [(''message'', JStr ''Task deleted''), (''id'', JStr ''007'')]\<rparr>, store2)
   \<and> length (tasks (snd (delete_task_h Up ''007'' store2))) = 1"
proof -
  have numeral: "int_of_text ''007'' = Some 7"
    by (simp add: int_of_text_def digit_val_def)
  have missing: "7 \<notin> set (map t_id (tasks store2))"
    by (simp add: store2_def report_def)
  have one: "length (tasks store2) = 1"
    by (simp add: store2_def)
  show ?thesis
    using missing_task_is_success [OF numeral missing, of 20 "[(''title'', JStr ''Other'')]"]
      numeral missing one
    by simp
qed

subsection \<open>Listing tasks\<close>

lemma owners_of_key:
  "distinct (map u_id us) \<Longrightarrow>
     length (filter (\<lambda>u. k = u_id u) us) = (if k \<in> set (map u_id us) then 1 else 0)"
  by (induction us) auto

lemma join_users_tasks:
  assumes "distinct (map u_id us)"
  shows "map v_task (join_users us t) = (if t_user_id t \<in> set (map u_id us) then [t] else [])"
proof -
  have "map v_task (join_users us t) =
          replicate (length (filter (\<lambda>u. t_user_id t = u_id u) us)) t"
    by (simp add: join_users_def map_replicate_const o_def)
  then show ?thesis
    using owners_of_key [OF assms, of "t_user_id t"] by simp
qed

lemma joined_tasks:
  assumes "distinct (map u_id us)"
  shows "map v_task (concat (map (join_users us) ts)) =
           filter (\<lambda>t. t_user_id t \<in> set (map u_id us)) ts"
  by (induction ts) (simp_all add: join_users_tasks [OF assms])

lemma joined_owner:
  assumes "r \<in> set (concat (map (join_users us) ts))"
  shows "\<exists>u\<in>set us. u_id u = t_user_id (v_task r) \<and> user_name r = u_name u
           \<and> user_email r = u_email u"
  using assms by (auto simp: join_users_def)

lemma sort_key_descending:
  "sorted_wrt (\<lambda>a b. f b \<le> (f a :: int)) (sort_key (\<lambda>x. - f x) xs)"
proof -
  have "sorted (map (\<lambda>x. - f x) (sort_key (\<lambda>x. - f x) xs))"
    by (rule sorted_sort_key)
  then show ?thesis
    by (simp add: sorted_map)
qed

text \<open>
  Claim C3. With the store reachable, listing tasks answers 200 with rows such that:
  the tasks of the rows are exactly the stored tasks whose \<open>user_id\<close> is the id of a
  user, each once; every row carries the name and email of the user its task references;
  and the rows are in descending order of the creation instant of their tasks. The ids
  of users are distinct, as the primary key has it.
\<close>

theorem list_tasks_inner_join:
  assumes "distinct (map u_id (users s))"
  shows "\<exists>rows. get_tasks Up s = (\<lparr>code = 200, body = TaskRows rows\<rparr>, s)
           \<and> mset (map v_task rows) =
               mset (filter (\<lambda>t. t_user_id t \<in> set (map u_id (users s))) (tasks s))
           \<and> (\<forall>r\<in>set rows. \<exists>u\<in>set (users s). u_id u = t_user_id (v_task r)
                 \<and> user_name r = u_name u \<and> user_email r = u_email u)
           \<and> sorted_wrt (\<lambda>a b. t_created_at (v_task b) \<le> t_created_at (v_task a)) rows"
proof -
  define js where "js = concat (map (join_users (users s)) (tasks s))"
  define rows where "rows = sort_key (\<lambda>v. - t_created_at (v_task v)) js"
  have resp: "get_tasks Up s = (\<lparr>code = 200, body = TaskRows rows\<rparr>, s)"
    by (simp add: get_tasks_def pool_query_def select_tasks_def rows_def js_def)
  have "mset (map v_task rows) = mset (map v_task js)"
    by (simp add: rows_def)
  then have exact: "mset (map v_task rows) =
      mset (filter (\<lambda>t. t_user_id t \<in> set (map u_id (users s))) (tasks s))"
    by (simp add: js_def joined_tasks [OF assms])
  have owner: "\<forall>r\<in>set rows. \<exists>u\<in>set (users s). u_id u = t_user_id (v_task r)
                 \<and> user_name r = u_name u \<and> user_email r = u_email u"
    using joined_owner [of _ "users s" "tasks s"] by (simp add: rows_def js_def)
  have order: "sorted_wrt (\<lambda>a b. t_created_at (v_task b) \<le> t_created_at (v_task a)) rows"
    unfolding rows_def by (rule sort_key_descending)
  from resp exact owner order show ?thesis
    by blast
qed

theorem list_tasks_inner_join_witness:
  "distinct (map u_id (users store3))
   \<and> get_tasks Up store3 =
       (\<lparr>code = 200,
         body = TaskRows
           [\<lparr>v_task = review, user_name = ''Bob'', user_email = ''bob@example.com''\<rparr>,
            \<lparr>v_task = report, user_name = ''Ann'', user_email = ''ann@example.com''\<rparr>]\<rparr>, store3)
   \<and> (\<exists>rows. get_tasks Up store3 = (\<lparr>code = 200, body = TaskRows rows\<rparr>, store3)
         \<and> mset (map v_task rows) = {#report, review#}
         \<and> sorted_wrt (\<lambda>a b. t_created_at (v_task b) \<le> t_created_at (v_task a)) rows)"
proof -
  have h: "distinct (map u_id (users store3))"
    by (simp add: store3_def ann_def bob_def)
  have run: "get_tasks Up store3 =
       (\<lparr>code = 200,
         body = TaskRows
           [\<lparr>v_task = review, user_name = ''Bob'', user_email = ''bob@example.com''\<rparr>,
            \<lparr>v_task = report, user_name = ''Ann'', user_email = ''ann@example.com''\<rparr>]\<rparr>, store3)"
    by (simp add: get_tasks_def pool_query_def select_tasks_def join_users_def sort_key_def
        store3_def ann_def bob_def report_def review_def stray_def)
  have "filter (\<lambda>t. t_user_id t \<in> set (map u_id (users store3))) (tasks store3)
          = [report, review]"
    by (simp add: store3_def ann_def bob_def report_def review_def stray_def)
  then have own: "mset (filter (\<lambda>t. t_user_id t \<in> set (map u_id (users store3))) (tasks store3))
                    = {#report, review#}"
    by (simp only: mset.simps add_mset_commute)
  from list_tasks_inner_join [OF h] obtain rows where
    a: "get_tasks Up store3 = (\<lparr>code = 200, body = TaskRows rows\<rparr>, store3)" and
    b: "mset (map v_task rows) =
       mset (filter (\<lambda>t. t_user_id t \<in> set (map u_id (users store3))) (tasks store3))" and
    c: "sorted_wrt (\<lambda>a b. t_created_at (v_task b) \<le> t_created_at (v_task a)) rows"
    by blast
  from b own have "mset (map v_task rows) = {#report, review#}"
    by (simp only:)
  with a c have "\<exists>rows. get_tasks Up store3 = (\<lparr>code = 200, body = TaskRows rows\<rparr>, store3)
         \<and> mset (map v_task rows) = {#report, review#}
         \<and> sorted_wrt (\<lambda>a b. t_created_at (v_task b) \<le> t_created_at (v_task a)) rows"
    by blast
  with h run show ?thesis
    by blast
qed

subsection \<open>Startup\<close>

lemma boot_Suc: "boot o1 o2 (Suc k) = tick o1 o2 (boot o1 o2 k)"
  by (simp add: boot_def)

lemma boot_0: "boot o1 o2 0 = AwaitUsers"
  by (simp add: boot_def)

lemma boot_1: "boot o1 o2 (Suc 0) = (case o1 of Inr _ \<Rightarrow> AwaitTasks | Inl e \<Rightarrow> Rejected e)"
  by (simp add: boot_def)

lemma boot_2:
  "boot o1 o2 2 =
     (case o1 of Inl e \<Rightarrow> Exited 1
      | Inr _ \<Rightarrow> (case o2 of Inr _ \<Rightarrow> Resolved | Inl e \<Rightarrow> Rejected e))"
  by (simp add: boot_def numeral_2_eq_2 split: sum.splits)

lemma boot_settled:
  "boot o1 o2 (3 + n) =
     (case o1 of Inl e \<Rightarrow> Exited 1
      | Inr _ \<Rightarrow> (case o2 of Inr _ \<Rightarrow> Listening | Inl e \<Rightarrow> Exited 1))"
proof (induction n)
  case 0
  have "boot o1 o2 3 = tick o1 o2 (boot o1 o2 2)"
    using boot_Suc [of o1 o2 2] by (simp add: numeral_3_eq_3 numeral_2_eq_2)
  then show ?case
    by (simp add: boot_2 split: sum.splits)
next
  case (Suc n)
  have "boot o1 o2 (3 + Suc n) = tick o1 o2 (boot o1 o2 (3 + n))"
    using boot_Suc [of o1 o2 "3 + n"] by simp
  then show ?case
    by (simp add: Suc.IH split: sum.splits)
qed

lemma boot_early: "k < 3 \<Longrightarrow> \<not> accepting (boot o1 o2 k)"
proof -
  assume "k < 3"
  then consider "k = 0" | "k = 1" | "k = 2"
    by linarith
  then show ?thesis
    by cases (simp_all add: boot_0 boot_1 boot_2 accepting_def split: sum.splits)
qed

text \<open>
  Claim C6. The process accepts requests only from the third step on, after both
  table-creation statements have completed without error; and when either statement
  fails, the process has exited with status 1 from the third step on and accepts requests
  at no step. When both succeed it listens from the third step on.
\<close>

theorem startup_gate:
  "(accepting (boot o1 o2 k) \<longrightarrow> 3 \<le> k \<and> o1 = Inr () \<and> o2 = Inr ())
   \<and> ((\<exists>e. o1 = Inl e \<or> o2 = Inl e) \<longrightarrow>
        \<not> accepting (boot o1 o2 k) \<and> (3 \<le> k \<longrightarrow> boot o1 o2 k = Exited 1))
   \<and> (o1 = Inr () \<and> o2 = Inr () \<and> 3 \<le> k \<longrightarrow> boot o1 o2 k = Listening)"
proof (cases "k < 3")
  case True
  then show ?thesis
    using boot_early [of k o1 o2] by simp
next
  case False
  then obtain n where k: "k = 3 + n"
    using le_Suc_ex [of 3 k] by auto
  show ?thesis
    unfolding k by (cases o1; cases o2) (simp_all add: boot_settled accepting_def)
qed

theorem startup_gate_witness:
  "accepting (boot (Inr ()) (Inr ()) 3)
   \<and> \<not> accepting (boot (Inr ()) (Inr ()) 2)
   \<and> \<not> accepting (boot (Inr ()) (Inl (Unreachable ''ETIMEDOUT'')) 7)
   \<and> boot (Inr ()) (Inl (Unreachable ''ETIMEDOUT'')) 7 = Exited 1
   \<and> boot (Inl (Unreachable ''ETIMEDOUT'')) (Inr ()) 3 = Exited 1"
  using startup_gate [of "Inr ()" "Inr ()" 3]
    startup_gate [of "Inr ()" "Inr ()" 2]
    startup_gate [of "Inr ()" "Inl (Unreachable ''ETIMEDOUT'')" 7]
    startup_gate [of "Inl (Unreachable ''ETIMEDOUT'')" "Inr ()" 3]
  by (simp add: accepting_def)

subsection \<open>Referential integrity and the cascade\<close>

lemma post_users_tables:
  "tasks (snd (post_users lk now b s)) = tasks s
   \<and> set (users s) \<subseteq> set (users (snd (post_users lk now b s)))"
  by (cases lk)
    (auto simp: post_users_def pool_query_def insert_user_def Let_def split: sum.splits)

lemma post_tasks_tables:
  "users (snd (post_tasks lk now b s)) = users s
   \<and> (tasks (snd (post_tasks lk now b s)) = tasks s
        \<or> (\<exists>r. tasks (snd (post_tasks lk now b s)) = tasks s @ [r]
              \<and> t_user_id r \<in> set (map u_id (users s))))"
  by (cases lk)
    (auto simp: post_tasks_def pool_query_def insert_task_def Let_def split: sum.splits)

lemma put_task_tables:
  "users (snd (put_task lk now seg b s)) = users s
   \<and> map t_user_id (tasks (snd (put_task lk now seg b s))) = map t_user_id (tasks s)"
  by (cases lk)
    (auto simp: put_task_def pool_query_def update_task_def write_task_def
      split: sum.splits option.splits)

lemma delete_task_tables:
  "users (snd (delete_task_h lk seg s)) = users s
   \<and> set (tasks (snd (delete_task_h lk seg s))) \<subseteq> set (tasks s)"
  by (cases lk)
    (auto simp: delete_task_h_def pool_query_def delete_task_def split: sum.splits option.splits)

lemma reads_keep_store:
  "snd (get_health lk now s) = s" "snd (get_users lk s) = s" "snd (get_tasks lk s) = s"
  by (cases lk; simp add: get_health_def get_users_def get_tasks_def pool_query_def select_1_def
      select_users_def select_tasks_def)+

lemma fk_holds_iff:
  "fk_holds s \<longleftrightarrow> set (map t_user_id (tasks s)) \<subseteq> set (map u_id (users s))"
  by (auto simp: fk_holds_def list_all_iff)

lemma handle_fk_holds:
  assumes "fk_holds s"
  shows "fk_holds (snd (handle lk now req s))"
proof (cases req)
  case (CreateUser b)
  with assms post_users_tables [of lk now b s] show ?thesis
    by (auto simp: handle_def fk_holds_iff)
next
  case (CreateTask b)
  with assms post_tasks_tables [of lk now b s] show ?thesis
    by (fastforce simp: handle_def fk_holds_def list_all_iff)
next
  case (UpdateTask seg b)
  with assms put_task_tables [of lk now seg b s] show ?thesis
    by (simp add: handle_def fk_holds_iff)
next
  case (DeleteTask seg)
  with assms delete_task_tables [of lk seg s] show ?thesis
    by (auto simp: handle_def fk_holds_iff)
qed (use assms in \<open>simp_all add: handle_def reads_keep_store\<close>)

lemma delete_user_fk_holds:
  assumes "fk_holds s"
  shows "fk_holds (delete_user i s)"
  using assms by (auto simp: fk_holds_iff delete_user_def)

lemma reachable_fk_holds: "reachable s \<Longrightarrow> fk_holds s"
proof (induction rule: reachable.induct)
  case start
  show ?case by (simp add: fk_holds_def empty_store_def)
next
  case (served s lk now req)
  then show ?case by (simp add: handle_fk_holds)
next
  case (user_deleted s i)
  then show ?case by (simp add: delete_user_fk_holds)
qed

lemma listing_tasks_stored:
  assumes "get_tasks Up s = (\<lparr>code = 200, body = TaskRows rows\<rparr>, s')"
  shows "set (map v_task rows) \<subseteq> set (tasks s)"
  using assms
  by (auto simp: get_tasks_def pool_query_def select_tasks_def join_users_def)

text \<open>
  Claim C7. In every store the application can reach, each task references an existing
  user. Deleting a user removes, in that one statement, the user and every task that
  references it, and keeps the other tasks; the store after it again has every task
  referencing an existing user, and a listing of tasks taken then has no row of the
  deleted user.
\<close>

theorem tasks_follow_their_user:
  assumes "reachable s"
  shows "(\<forall>t\<in>set (tasks s). \<exists>u\<in>set (users s). u_id u = t_user_id t)
         \<and> i \<notin> set (map u_id (users (delete_user i s)))
         \<and> tasks (delete_user i s) = filter (\<lambda>t. t_user_id t \<noteq> i) (tasks s)
         \<and> i \<notin> set (map t_user_id (tasks (delete_user i s)))
         \<and> (\<forall>t\<in>set (tasks (delete_user i s)).
               \<exists>u\<in>set (users (delete_user i s)). u_id u = t_user_id t)
         \<and> (\<forall>rows s'. get_tasks Up (delete_user i s) = (\<lparr>code = 200, body = TaskRows rows\<rparr>, s')
               \<longrightarrow> i \<notin> set (map (\<lambda>r. t_user_id (v_task r)) rows))"
proof -
  have inv: "fk_holds s"
    using assms by (rule reachable_fk_holds)
  have owners: "\<forall>t\<in>set (tasks s). \<exists>u\<in>set (users s). u_id u = t_user_id t"
    using inv by (fastforce simp: fk_holds_def list_all_iff)
  have gone: "i \<notin> set (map u_id (users (delete_user i s)))"
    by (auto simp: delete_user_def)
  have rest: "tasks (delete_user i s) = filter (\<lambda>t. t_user_id t \<noteq> i) (tasks s)"
    by (simp add: delete_user_def)
  have none: "i \<notin> set (map t_user_id (tasks (delete_user i s)))"
    by (auto simp: delete_user_def)
  have "fk_holds (delete_user i s)"
    using inv by (rule delete_user_fk_holds)
  then have after: "\<forall>t\<in>set (tasks (delete_user i s)).
               \<exists>u\<in>set (users (delete_user i s)). u_id u = t_user_id t"
    by (fastforce simp: fk_holds_def list_all_iff)
  have listing: "\<forall>rows s'.
      get_tasks Up (delete_user i s) = (\<lparr>code = 200, body = TaskRows rows\<rparr>, s')
        \<longrightarrow> i \<notin> set (map (\<lambda>r. t_user_id (v_task r)) rows)"
  proof (intro allI impI)
    fix rows s'
    assume "get_tasks Up (delete_user i s) = (\<lparr>code = 200, body = TaskRows rows\<rparr>, s')"
    then have "set (map v_task rows) \<subseteq> set (tasks (delete_user i s))"
      by (rule listing_tasks_stored)
    with none show "i \<notin> set (map (\<lambda>r. t_user_id (v_task r)) rows)"
      by auto
  qed
  from owners gone rest none after listing show ?thesis
    by blast
qed

theorem tasks_follow_their_user_witness:
  "reachable store2
   \<and> tasks store2 = [report]
   \<and> map t_user_id (tasks store2) = [1]
   \<and> map u_id (users store2) = [1]
   \<and> tasks (delete_user 1 store2) = []
   \<and> 1 \<notin> set (map t_user_id (tasks (delete_user 1 store2)))
   \<and> get_tasks Up (delete_user 1 store2) = (\<lparr>code = 200, body = TaskRows []\<rparr>, delete_user 1 store2)"
proof -
  have e1: "store1 =
      snd (handle Up 10 (CreateUser [(''name'', JStr ''Ann''), (''email'', JStr ''ann@example.com'')])
             empty_store)"
    by (simp add: handle_def post_users_def pool_query_def insert_user_def field_def
        varchar_not_null_def fit_def empty_store_def store1_def ann_def)
  have r1: "reachable store1"
    unfolding e1 by (rule reachable.served [OF reachable.start])
  have e2: "store2 =
      snd (handle Up 12 (CreateTask [(''user_id'', JNum 1), (''title'', JStr ''Write report'')])
             store1)"
    by (simp add: handle_def post_tasks_def pool_query_def insert_task_def field_def
        int_not_null_def varchar_not_null_def text_null_def enum_null_def status_named_def
        or_else_def fit_def store1_def store2_def ann_def report_def)
  have r2: "reachable store2"
    unfolding e2 by (rule reachable.served [OF r1])
  have t: "tasks store2 = [report]"
    by (simp add: store2_def)
  have o: "map t_user_id (tasks store2) = [1]" "map u_id (users store2) = [1]"
    by (simp_all add: store2_def report_def ann_def)
  have d: "tasks (delete_user 1 store2) = []"
    by (simp add: delete_user_def store2_def report_def)
  have l: "get_tasks Up (delete_user 1 store2) =
             (\<lparr>code = 200, body = TaskRows []\<rparr>, delete_user 1 store2)"
    by (simp add: get_tasks_def pool_query_def select_tasks_def d)
  show ?thesis
    using tasks_follow_their_user [OF r2, of 1] r2 t o d l by simp
qed

subsection \<open>Responses to a failed statement\<close>

lemma handler_codes:
  "code (fst (get_health lk now s)) \<in> {200, 201, 500}"
  "code (fst (get_users lk s)) \<in> {200, 201, 500}"
  "code (fst (post_users lk now b s)) \<in> {200, 201, 500}"
  "code (fst (get_tasks lk s)) \<in> {200, 201, 500}"
  "code (fst (post_tasks lk now b s)) \<in> {200, 201, 500}"
  "code (fst (put_task lk now seg b s)) \<in> {200, 201, 500}"
  "code (fst (delete_task_h lk seg s)) \<in> {200, 201, 500}"
  by (simp_all add: get_health_def get_users_def post_users_def get_tasks_def post_tasks_def
      put_task_def delete_task_h_def res_error_def res_json_def Let_def
      split: prod.splits sum.splits)

text \<open>
  Claim C9, as the code has it. When the statement of a handler under \<^verbatim>\<open>/api\<close> fails
  with an error \<open>e\<close>, the response has status 500 and the body is exactly the object
  with the one property \<open>error\<close>, the message of \<open>e\<close>. When the probe of the health
  handler fails, the response has status 500 and its body has the two properties
  \<open>status\<close>, with the text unhealthy, and \<open>error\<close>. Every handler answers every
  request, whether its statement fails or not, and with no other status than 200, 201
  or 500.
\<close>

theorem failed_statement_is_500:
  "(fst (pool_query lk select_users s) = Inl e \<longrightarrow>
      fst (get_users lk s) = \<lparr>code = 500, body = Obj [(''error'', JStr (message e))]\<rparr>)
   \<and> (fst (pool_query lk (insert_user now (escape (field b ''name''))
                (escape (field b ''email''))) s) = Inl e \<longrightarrow>
      fst (post_users lk now b s) = \<lparr>code = 500, body = Obj [(''error'', JStr (message e))]\<rparr>)
   \<and> (fst (pool_query lk select_tasks s) = Inl e \<longrightarrow>
      fst (get_tasks lk s) = \<lparr>code = 500, body = Obj [(''error'', JStr (message e))]\<rparr>)
   \<and> (fst (pool_query lk (insert_task now (escape (field b ''user_id''))
                (escape (field b ''title'')) (escape (field b ''description''))
                (escape (or_else (field b ''status'') (JStr ''pending'')))) s) = Inl e \<longrightarrow>
      fst (post_tasks lk now b s) = \<lparr>code = 500, body = Obj [(''error'', JStr (message e))]\<rparr>)
   \<and> (fst (pool_query lk (update_task now (escape (field b ''title''))
                (escape (field b ''description'')) (escape (field b ''status''))
                (escape (JStr seg))) s) = Inl e \<longrightarrow>
      fst (put_task lk now seg b s) = \<lparr>code = 500, body = Obj [(''error'', JStr (message e))]\<rparr>)
   \<and> (fst (pool_query lk (delete_task (escape (JStr seg))) s) = Inl e \<longrightarrow>
      fst (delete_task_h lk seg s) = \<lparr>code = 500, body = Obj [(''error'', JStr (message e))]\<rparr>)
   \<and> (fst (pool_query lk select_1 s) = Inl e \<longrightarrow>
      fst (get_health lk now s) =
        \<lparr>code = 500, body = Obj [(''status'', JStr ''unhealthy''), (''error'', JStr (message e))]\<rparr>)
   \<and> code (fst (handle lk now req s)) \<in> {200, 201, 500}"
proof -
  have codes: "code (fst (handle lk now req s)) \<in> {200, 201, 500}"
    by (cases req) (simp_all only: handle_def request.case handler_codes)
  show ?thesis
    using codes
    by (simp add: get_health_def get_users_def post_users_def get_tasks_def post_tasks_def
        put_task_def delete_task_h_def res_error_def res_json_def Let_def
        split: prod.splits)
qed

theorem failed_statement_is_500_witness:
  "fst (pool_query Up (insert_user 11 (escape (field [(''email'', JStr ''ann@example.com'')] ''name''))
          (escape (field [(''email'', JStr ''ann@example.com'')] ''email''))) store1)
     = Inl (BadNull ''name'')
   \<and> fst (post_users Up 11 [(''email'', JStr ''ann@example.com'')] store1)
       = \<lparr>code = 500, body = Obj [(''error'', JStr ''Column name cannot be null'')]\<rparr>
   \<and> fst (pool_query (Down ''ECONNREFUSED'') select_1 store1) = Inl (Unreachable ''ECONNREFUSED'')
   \<and> fst (get_health (Down ''ECONNREFUSED'') 11 store1)
       = \<lparr>code = 500, body = Obj [(''status'', JStr ''unhealthy''), (''error'', JStr ''ECONNREFUSED'')]\<rparr>"
proof -
  have a: "fst (pool_query Up (insert_user 11 (escape (field [(''email'', JStr ''ann@example.com'')] ''name''))
          (escape (field [(''email'', JStr ''ann@example.com'')] ''email''))) store1)
     = Inl (BadNull ''name'')"
    by (simp add: pool_query_def insert_user_def field_def varchar_not_null_def)
  have b: "fst (pool_query (Down ''ECONNREFUSED'') select_1 store1) = Inl (Unreachable ''ECONNREFUSED'')"
    by (simp add: pool_query_def)
  show ?thesis
    using failed_statement_is_500 [of Up store1 "BadNull ''name''" 11
        "[(''email'', JStr ''ann@example.com'')]"]
      failed_statement_is_500 [of "Down ''ECONNREFUSED''" store1 "Unreachable ''ECONNREFUSED''" 11]
      a b
    by simp
qed

text \<open>
  Claim C9 as stated asks for the body with the one property \<open>error\<close> from every
  handler. The health handler answers a failed probe with another body.
\<close>

theorem health_error_body_counterexample:
  "fst (pool_query (Down ''ECONNREFUSED'') select_1 store1) = Inl (Unreachable ''ECONNREFUSED'')
   \<and> fst (get_health (Down ''ECONNREFUSED'') 11 store1)
       \<noteq> \<lparr>code = 500, body = Obj [(''error'', JStr (message (Unreachable ''ECONNREFUSED'')))]\<rparr>"
  by (simp add: get_health_def pool_query_def res_json_def)

subsection \<open>Updating a task\<close>

lemma write_task_fields:
  "t_id (write_task now t d st r) = t_id r"
  "t_title (write_task now t d st r) = t"
  "t_description (write_task now t d st r) = d"
  "t_status (write_task now t d st r) = st"
  by (simp_all add: write_task_def)

lemma written_rows:
  "\<forall>r\<in>set (map (\<lambda>r. if t_id r = i then write_task now t d st r else r) rs).
     t_id r = i \<longrightarrow> t_title r = t \<and> t_description r = d \<and> t_status r = st"
proof (intro ballI impI)
  fix r
  assume mem: "r \<in> set (map (\<lambda>r. if t_id r = i then write_task now t d st r else r) rs)"
    and idr: "t_id r = i"
  from mem obtain r0 where r: "r = (if t_id r0 = i then write_task now t d st r0 else r0)"
    unfolding set_map by blast
  from r idr have "r = write_task now t d st r0"
    by (cases "t_id r0 = i") simp_all
  then show "t_title r = t \<and> t_description r = d \<and> t_status r = st"
    by (simp only: write_task_fields)
qed

lemma written_ids:
  "map t_id (map (\<lambda>r. if t_id r = i then write_task now t d st r else r) rs) = map t_id rs"
  by (simp add: write_task_fields(1))

lemma update_refused:
  assumes "int_of_text seg = Some i" and "i \<in> set (map t_id (tasks s))"
    and "varchar_not_null ''title'' 200 (escape (field b ''title'')) = Inl e"
  shows "put_task Up now seg b s = (res_error e, s)"
  using assms
  by (simp add: put_task_def pool_query_def update_task_def where_id_numeral)

text \<open>
  Claim C5, as the code has it. The handler sends the title, the description and the
  status of the body to the statement as they are, an absent one as \<^verbatim>\<open>NULL\<close>. For a
  path id that writes the id of an existing task and a body that omits \<open>status\<close>:
  when the columns accept the title and the description, the update answers 200 and
  writes all three values to the addressed row, \<^verbatim>\<open>NULL\<close> for the status whatever it was,
  and the other rows are as before; when the column refuses the title, the update
  answers 500 with that error and the store is as before; an absent title is refused
  so, since the title is \<^verbatim>\<open>NOT NULL\<close>.
\<close>

theorem update_overwrites_status:
  assumes numeral: "int_of_text seg = Some i"
    and there: "i \<in> set (map t_id (tasks s))"
    and omitted: "field b ''status'' = JUndefined"
  shows "(varchar_not_null ''title'' 200 (escape (field b ''title'')) = Inr t
            \<and> text_null ''description'' (escape (field b ''description'')) = Inr d \<longrightarrow>
           put_task Up now seg b s =
             (\<lparr>code = 200,
               body = Obj [(''message'', JStr ''Task updated''), (''id'', JStr seg)]\<rparr>,
              s\<lparr>tasks := map (\<lambda>r. if t_id r = i then write_task now t d None r else r) (tasks s)\<rparr>)
           \<and> (\<forall>r\<in>set (tasks (snd (put_task Up now seg b s))).
                 t_id r = i \<longrightarrow> t_title r = t \<and> t_description r = d \<and> t_status r = None)
           \<and> i \<in> set (map t_id (tasks (snd (put_task Up now seg b s)))))
         \<and> (varchar_not_null ''title'' 200 (escape (field b ''title'')) = Inl e \<longrightarrow>
               put_task Up now seg b s =
                 (\<lparr>code = 500, body = Obj [(''error'', JStr (message e))]\<rparr>, s))
         \<and> (field b ''title'' = JUndefined \<longrightarrow>
               put_task Up now seg b s =
                 (\<lparr>code = 500, body = Obj [(''error'', JStr ''Column title cannot be null'')]\<rparr>, s))"
proof -
  have accepted: "put_task Up now seg b s =
             (\<lparr>code = 200,
               body = Obj [(''message'', JStr ''Task updated''), (''id'', JStr seg)]\<rparr>,
              s\<lparr>tasks := map (\<lambda>r. if t_id r = i then write_task now t d None r else r) (tasks s)\<rparr>)
           \<and> (\<forall>r\<in>set (tasks (snd (put_task Up now seg b s))).
                 t_id r = i \<longrightarrow> t_title r = t \<and> t_description r = d \<and> t_status r = None)
           \<and> i \<in> set (map t_id (tasks (snd (put_task Up now seg b s))))"
    if title: "varchar_not_null ''title'' 200 (escape (field b ''title'')) = Inr t"
      and descr: "text_null ''description'' (escape (field b ''description'')) = Inr d"
  proof -
    have run: "put_task Up now seg b s =
             (\<lparr>code = 200,
               body = Obj [(''message'', JStr ''Task updated''), (''id'', JStr seg)]\<rparr>,
              s\<lparr>tasks := map (\<lambda>r. if t_id r = i then write_task now t d None r else r) (tasks s)\<rparr>)"
      using there omitted title descr
      by (simp add: put_task_def pool_query_def update_task_def where_id_numeral [OF numeral]
          enum_null_def res_json_def)
    have kept:
      "i \<in> set (map t_id (map (\<lambda>r. if t_id r = i then write_task now t d None r else r) (tasks s)))"
      using there by (simp only: written_ids)
    show ?thesis
      using written_rows [of i now t d None "tasks s"] kept
      by (simp only: run snd_conv store.simps) simp
  qed
  have refused: "put_task Up now seg b s =
                 (\<lparr>code = 500, body = Obj [(''error'', JStr (message e))]\<rparr>, s)"
    if "varchar_not_null ''title'' 200 (escape (field b ''title'')) = Inl e"
    using update_refused [OF numeral there that] by (simp add: res_error_def res_json_def)
  have absent: "put_task Up now seg b s =
                 (\<lparr>code = 500, body = Obj [(''error'', JStr ''Column title cannot be null'')]\<rparr>, s)"
    if "field b ''title'' = JUndefined"
  proof -
    have "varchar_not_null ''title'' 200 (escape (field b ''title'')) = Inl (BadNull ''title'')"
      using that by (simp add: varchar_not_null_def)
    from update_refused [OF numeral there this] show ?thesis
      by (simp add: res_error_def res_json_def)
  qed
  from accepted refused absent show ?thesis
    by blast
qed

theorem update_overwrites_status_witness:
  "int_of_text ''1'' = Some 1
   \<and> 1 \<in> set (map t_id (tasks store2))
   \<and> map t_status (tasks store2) = [Some Pending]
   \<and> put_task Up 20 ''1'' [(''title'', JStr ''Write report'')] store2 =
       (\<lparr>code = 200, body = Obj [(''message'', JStr ''Task updated''), (''id'', JStr ''1'')]\<rparr>,
        store2\<lparr>tasks := [report\<lparr>t_status := None, t_updated_at := 20\<rparr>]\<rparr>)
   \<and> map t_status (tasks (snd (put_task Up 20 ''1'' [(''title'', JStr ''Write report'')] store2)))
       = [None]
   \<and> put_task Up 20 ''1'' [(''description'', JStr ''Draft'')] store2 =
       (\<lparr>code = 500, body = Obj [(''error'', JStr ''Column title cannot be null'')]\<rparr>, store2)"
proof -
  have numeral: "int_of_text ''1'' = Some 1"
    by (simp add: int_of_text_def digit_val_def)
  have there: "1 \<in> set (map t_id (tasks store2))"
    by (simp add: store2_def report_def)
  have omitted: "field [(''title'', JStr ''Write report'')] ''status'' = JUndefined"
    by (simp add: field_def)
  have title: "varchar_not_null ''title'' 200
                 (escape (field [(''title'', JStr ''Write report'')] ''title'')) = Inr ''Write report''"
    by (simp add: field_def varchar_not_null_def fit_def)
  have descr: "text_null ''description''
                 (escape (field [(''title'', JStr ''Write report'')] ''description'')) = Inr None"
    by (simp add: field_def text_null_def)
  have before: "map t_status (tasks store2) = [Some Pending]"
    by (simp add: store2_def report_def)
  have row: "map (\<lambda>r. if t_id r = 1 then write_task 20 ''Write report'' None None r else r)
               (tasks store2) = [report\<lparr>t_status := None, t_updated_at := 20\<rparr>]"
    by (simp add: store2_def report_def write_task_def)
  have omitted': "field [(''description'', JStr ''Draft'')] ''status'' = JUndefined"
    by (simp add: field_def)
  have no_title: "field [(''description'', JStr ''Draft'')] ''title'' = JUndefined"
    by (simp add: field_def)
  have ok: "put_task Up 20 ''1'' [(''title'', JStr ''Write report'')] store2 =
       (\<lparr>code = 200, body = Obj [(''message'', JStr ''Task updated''), (''id'', JStr ''1'')]\<rparr>,
        store2\<lparr>tasks := [report\<lparr>t_status := None, t_updated_at := 20\<rparr>]\<rparr>)"
    using update_overwrites_status [OF numeral there omitted, of "''Write report''" None 20]
      title descr row
    by simp
  have bad: "put_task Up 20 ''1'' [(''description'', JStr ''Draft'')] store2 =
       (\<lparr>code = 500, body = Obj [(''error'', JStr ''Column title cannot be null'')]\<rparr>, store2)"
    using update_overwrites_status [OF numeral there omitted', of _ _ 20] no_title
    by simp
  show ?thesis
    using numeral there before ok bad by simp
qed

text \<open>
  Claim C5 as stated has every update that omits \<open>status\<close> answered with 200 and the
  status overwritten. An update that omits the title as well is refused by the column of
  the title, answered with 500, and the status stays.
\<close>

theorem update_without_title_counterexample:
  "int_of_text ''1'' = Some 1
   \<and> 1 \<in> set (map t_id (tasks store2))
   \<and> field [(''description'', JStr ''Draft'')] ''status'' = JUndefined
   \<and> code (fst (put_task Up 20 ''1'' [(''description'', JStr ''Draft'')] store2)) = 500
   \<and> map t_status (tasks (snd (put_task Up 20 ''1'' [(''description'', JStr ''Draft'')] store2)))
       = [Some Pending]"
  by (simp add: put_task_def pool_query_def update_task_def where_id_def int_of_text_def
      digit_val_def field_def varchar_not_null_def res_error_def res_json_def store2_def
      report_def)

subsection \<open>Creating a task\<close>

lemma field_absent: "k \<notin> set (map fst b) \<Longrightarrow> field b k = JUndefined"
  by (simp add: field_def map_of_eq_None_iff [THEN iffD2])

lemma set_prop_fresh: "k \<notin> set (map fst ps) \<Longrightarrow> set_prop k v ps = ps @ [(k, v)]"
  by (induction ps) auto

lemma spread_fresh:
  "distinct (map fst b) \<Longrightarrow> set (map fst b) \<inter> set (map fst base) = {} \<Longrightarrow>
     spread base b = base @ b"
proof (induction b arbitrary: base)
  case Nil
  show ?case by (simp add: spread_def)
next
  case (Cons p b)
  have fresh: "fst p \<notin> set (map fst base)"
    using Cons.prems(2) by auto
  have "spread base (p # b) = spread (set_prop (fst p) (snd p) base) b"
    by (simp add: spread_def)
  also have "\<dots> = spread (base @ [p]) b"
    using fresh by (simp add: set_prop_fresh)
  also have "\<dots> = (base @ [p]) @ b"
    using Cons.prems by (intro Cons.IH) auto
  finally show ?case by simp
qed

lemma json_object_written:
  "json_object b \<Longrightarrow> filter (\<lambda>p. snd p \<noteq> JUndefined) b = b"
  by (force simp: json_object_def filter_id_conv)

text \<open>
  Claim C8, as the code has it. A request to create a task whose \<open>user_id\<close> references
  a user, whose title and description their columns accept, and whose body has no
  \<open>status\<close> and no \<open>id\<close> of its own, stores one new task with status pending and the
  generated id, and answers 201 with the generated id followed by the properties of the
  body.
\<close>

theorem create_task_defaults_pending:
  assumes parsed: "json_object b"
    and omitted: "''status'' \<notin> set (map fst b)"
    and no_id: "''id'' \<notin> set (map fst b)"
    and owner: "int_not_null ''user_id'' (escape (field b ''user_id'')) = Inr u"
    and known: "u \<in> set (map u_id (users s))"
    and title: "varchar_not_null ''title'' 200 (escape (field b ''title'')) = Inr t"
    and descr: "text_null ''description'' (escape (field b ''description'')) = Inr d"
  shows "post_tasks Up now b s =
           (\<lparr>code = 201, body = Obj ((''id'', JNum (next_task_id s)) # b)\<rparr>,
            s\<lparr>next_task_id := next_task_id s + 1,
              tasks := tasks s @
                [\<lparr>t_id = next_task_id s, t_user_id = u, t_title = t, t_description = d,
                  t_status = Some Pending, t_created_at = now, t_updated_at = now\<rparr>]\<rparr>)"
proof -
  have status: "escape (or_else (field b ''status'') (JStr ''pending'')) = SStr ''pending''"
    using omitted by (simp add: field_absent or_else_def)
  have member: "enum_null ''status'' (SStr ''pending'') = Inr (Some Pending)"
    by (simp add: enum_null_def status_named_def)
  have echo: "spread [(''id'', JNum (next_task_id s))] b = (''id'', JNum (next_task_id s)) # b"
    using parsed no_id by (simp add: spread_fresh json_object_def)
  have written: "filter (\<lambda>p. snd p \<noteq> JUndefined) ((''id'', JNum (next_task_id s)) # b)
                   = (''id'', JNum (next_task_id s)) # b"
    using parsed by (simp add: json_object_written)
  show ?thesis
    using known written
    by (simp add: post_tasks_def pool_query_def insert_task_def Let_def status member owner
        title descr echo res_json_def)
qed

theorem create_task_defaults_pending_witness:
  "json_object [(''user_id'', JNum 1), (''title'', JStr ''Write report'')]
   \<and> post_tasks Up 12 [(''user_id'', JNum 1), (''title'', JStr ''Write report'')] store1 =
       (\<lparr>code = 201,
         body = Obj [(''id'', JNum 1), (''user_id'', JNum 1), (''title'', JStr ''Write report'')]\<rparr>,
        store2)"
proof -
  have parsed: "json_object [(''user_id'', JNum 1), (''title'', JStr ''Write report'')]"
    by (simp add: json_object_def)
  have omitted: "''status'' \<notin> set (map fst [(''user_id'', JNum 1), (''title'', JStr ''Write report'')])"
    by simp
  have no_id: "''id'' \<notin> set (map fst [(''user_id'', JNum 1), (''title'', JStr ''Write report'')])"
    by simp
  have owner: "int_not_null ''user_id''
      (escape (field [(''user_id'', JNum 1), (''title'', JStr ''Write report'')] ''user_id'')) = Inr 1"
    by (simp add: field_def int_not_null_def)
  have known: "1 \<in> set (map u_id (users store1))"
    by (simp add: store1_def ann_def)
  have title: "varchar_not_null ''title'' 200
      (escape (field [(''user_id'', JNum 1), (''title'', JStr ''Write report'')] ''title''))
        = Inr ''Write report''"
    by (simp add: field_def varchar_not_null_def fit_def)
  have descr: "text_null ''description''
      (escape (field [(''user_id'', JNum 1), (''title'', JStr ''Write report'')] ''description''))
        = Inr None"
    by (simp add: field_def text_null_def)
  have after: "store1\<lparr>next_task_id := next_task_id store1 + 1,
              tasks := tasks store1 @
                [\<lparr>t_id = next_task_id store1, t_user_id = 1, t_title = ''Write report'',
                  t_description = None, t_status = Some Pending, t_created_at = 12,
                  t_updated_at = 12\<rparr>]\<rparr> = store2"
    by (simp add: store1_def store2_def report_def)
  have n: "next_task_id store1 = 1"
    by (simp add: store1_def)
  show ?thesis
    using create_task_defaults_pending [OF parsed omitted no_id owner known title descr, of 12]
      parsed after n
    by simp
qed

text \<open>
  Claim C8 as stated asks only for a valid \<open>user_id\<close> and title. A description longer
  than its column is refused: the request is answered with 500 and no task is stored.
\<close>

theorem create_task_long_description_counterexample:
  "resolves (field [(''user_id'', JNum 1), (''title'', JStr ''Write report''),
                    (''description'', JStr (replicate 65536 CHR ''x''))] ''user_id'') store1
   \<and> varchar_not_null ''title'' 200
        (escape (field [(''user_id'', JNum 1), (''title'', JStr ''Write report''),
                        (''description'', JStr (replicate 65536 CHR ''x''))] ''title''))
       = Inr ''Write report''
   \<and> field [(''user_id'', JNum 1), (''title'', JStr ''Write report''),
             (''description'', JStr (replicate 65536 CHR ''x''))] ''status'' = JUndefined
   \<and> code (fst (post_tasks Up 12 [(''user_id'', JNum 1), (''title'', JStr ''Write report''),
                                   (''description'', JStr (replicate 65536 CHR ''x''))] store1)) = 500
   \<and> tasks (snd (post_tasks Up 12 [(''user_id'', JNum 1), (''title'', JStr ''Write report''),
                                    (''description'', JStr (replicate 65536 CHR ''x''))] store1)) = []"
  by (simp add: post_tasks_def pool_query_def insert_task_def field_def resolves_def
      int_not_null_def varchar_not_null_def text_null_def fit_def res_error_def res_json_def
      store1_def ann_def)

text \<open>
  A body that carries an \<open>id\<close> of its own: the task is stored under the generated id 1,
  and the response carries the id of the body in its place.
\<close>

lemma create_task_own_id:
  "post_tasks Up 12 [(''id'', JNum 999), (''user_id'', JNum 1), (''title'', JStr ''Write report'')]
     store1 =
     (\<lparr>code = 201,
       body = Obj [(''id'', JNum 999), (''user_id'', JNum 1), (''title'', JStr ''Write report'')]\<rparr>,
      store2)"
  by (simp add: post_tasks_def pool_query_def insert_task_def field_def int_not_null_def
      varchar_not_null_def text_null_def enum_null_def status_named_def or_else_def fit_def
      spread_def res_json_def store1_def store2_def ann_def report_def)

subsection \<open>A falsy status\<close>

lemma insert_task_stored:
  assumes "fst (insert_task now uid ti de (SStr ''pending'') s) = Inr i"
  shows "\<exists>r. tasks (snd (insert_task now uid ti de (SStr ''pending'') s)) = tasks s @ [r]
           \<and> t_id r = i \<and> t_status r = Some Pending"
  using assms
  by (auto simp: insert_task_def Let_def enum_null_def status_named_def
      split: sum.splits if_splits)

lemma insert_task_pending_not_truncated:
  "fst (insert_task now uid ti de (SStr ''pending'') s) \<noteq> Inl (DataTruncated ''status'')"
  by (auto simp: insert_task_def Let_def enum_null_def status_named_def varchar_not_null_def
      text_null_def int_not_null_def split: sum.splits option.splits sqlval.splits)

lemma falsy_values:
  "(\<not> truthy v) = (v \<in> {JUndefined, JNull, JBool False, JNum 0, JStr []})"
  by (cases v) auto

lemma insert_task_accepted:
  assumes "resolves uv s"
    and "\<not> isl (varchar_not_null ''title'' 200 ti)"
    and "\<not> isl (text_null ''description'' de)"
  shows "case enum_null ''status'' st of
           Inl e \<Rightarrow> insert_task now (escape uv) ti de st s = (Inl e, s)
         | Inr m \<Rightarrow> (\<exists>i r. insert_task now (escape uv) ti de st s =
                          (Inr i, s\<lparr>next_task_id := next_task_id s + 1, tasks := tasks s @ [r]\<rparr>)
                        \<and> t_status r = m)"
  using assms
  by (auto simp: insert_task_def Let_def resolves_def split: sum.splits)

text \<open>
  Claim C10. The falsy values of a body are the absent one, null, false, 0 and the empty
  text. \<^verbatim>\<open>status || 'pending'\<close> replaces each of them by the text pending, so for a body
  with a falsy status: the statement is never refused for its status; whenever the
  request is answered with 201, one task was added and its status is pending; and with
  the store reachable it is answered with 201 as soon as the \<open>user_id\<close> references a
  user and the title and the description are accepted. A truthy status, and only a truthy
  one, goes to the statement as it is: the handler then answers as the insert with that
  very status does, so with the other values accepted a status the enumeration refuses is
  answered with 500 and nothing is stored, and one it takes is the status of the new task.
\<close>

theorem falsy_status_is_pending:
  "((\<not> truthy v) = (v \<in> {JUndefined, JNull, JBool False, JNum 0, JStr []}))
   \<and> (truthy v \<longrightarrow> escape (or_else v (JStr ''pending'')) = escape v)
   \<and> (\<not> truthy (field b ''status'') \<longrightarrow>
         escape (or_else (field b ''status'') (JStr ''pending'')) = SStr ''pending''
         \<and> fst (pool_query lk (insert_task now (escape (field b ''user_id''))
                  (escape (field b ''title'')) (escape (field b ''description''))
                  (escape (or_else (field b ''status'') (JStr ''pending'')))) s)
               \<noteq> Inl (DataTruncated ''status'')
         \<and> (code (fst (post_tasks lk now b s)) = 201 \<longrightarrow>
               (\<exists>r. tasks (snd (post_tasks lk now b s)) = tasks s @ [r]
                     \<and> t_status r = Some Pending))
         \<and> (resolves (field b ''user_id'') s
              \<and> \<not> isl (varchar_not_null ''title'' 200 (escape (field b ''title'')))
              \<and> \<not> isl (text_null ''description'' (escape (field b ''description'')))
             \<longrightarrow> code (fst (post_tasks Up now b s)) = 201))
   \<and> (truthy (field b ''status'') \<longrightarrow>
         post_tasks lk now b s =
           (case pool_query lk (insert_task now (escape (field b ''user_id''))
                   (escape (field b ''title'')) (escape (field b ''description''))
                   (escape (field b ''status''))) s of
              (Inr insertId, s') \<Rightarrow> (res_json 201 (spread [(''id'', JNum insertId)] b), s')
            | (Inl e, s') \<Rightarrow> (res_error e, s'))
         \<and> (resolves (field b ''user_id'') s
              \<and> \<not> isl (varchar_not_null ''title'' 200 (escape (field b ''title'')))
              \<and> \<not> isl (text_null ''description'' (escape (field b ''description'')))
             \<longrightarrow>
               (case enum_null ''status'' (escape (field b ''status'')) of
                  Inl e \<Rightarrow> post_tasks Up now b s = (res_error e, s)
                | Inr m \<Rightarrow>
                    code (fst (post_tasks Up now b s)) = 201
                    \<and> (\<exists>r. tasks (snd (post_tasks Up now b s)) = tasks s @ [r]
                          \<and> t_status r = m))))"
proof -
  let ?q = "insert_task now (escape (field b ''user_id'')) (escape (field b ''title''))
              (escape (field b ''description'')) (SStr ''pending'')"
  have passed: "truthy v \<longrightarrow> escape (or_else v (JStr ''pending'')) = escape v"
    by (simp add: or_else_def)
  have falsy_part:
    "escape (or_else (field b ''status'') (JStr ''pending'')) = SStr ''pending''
         \<and> fst (pool_query lk (insert_task now (escape (field b ''user_id''))
                  (escape (field b ''title'')) (escape (field b ''description''))
                  (escape (or_else (field b ''status'') (JStr ''pending'')))) s)
               \<noteq> Inl (DataTruncated ''status'')
         \<and> (code (fst (post_tasks lk now b s)) = 201 \<longrightarrow>
               (\<exists>r. tasks (snd (post_tasks lk now b s)) = tasks s @ [r]
                     \<and> t_status r = Some Pending))
         \<and> (resolves (field b ''user_id'') s
              \<and> \<not> isl (varchar_not_null ''title'' 200 (escape (field b ''title'')))
              \<and> \<not> isl (text_null ''description'' (escape (field b ''description'')))
             \<longrightarrow> code (fst (post_tasks Up now b s)) = 201)"
    if falsy: "\<not> truthy (field b ''status'')"
  proof -
    have sent: "escape (or_else (field b ''status'') (JStr ''pending'')) = SStr ''pending''"
      using falsy by (simp add: or_else_def)
    have not_status: "fst (pool_query lk ?q s) \<noteq> Inl (DataTruncated ''status'')"
      by (cases lk) (simp_all add: pool_query_def insert_task_pending_not_truncated)
    have stored: "code (fst (post_tasks lk now b s)) = 201 \<longrightarrow>
               (\<exists>r. tasks (snd (post_tasks lk now b s)) = tasks s @ [r]
                     \<and> t_status r = Some Pending)"
    proof (cases lk)
      case (Down m)
      then show ?thesis
        by (simp add: post_tasks_def pool_query_def res_error_def res_json_def)
    next
      case Up
      obtain x s' where q: "?q s = (x, s')"
        by (cases "?q s")
      show ?thesis
      proof (cases x)
        case (Inl e)
        with Up q show ?thesis
          by (simp add: post_tasks_def pool_query_def sent res_error_def res_json_def)
      next
        case (Inr i)
        with q have "fst (?q s) = Inr i"
          by simp
        from insert_task_stored [OF this] q Inr Up show ?thesis
          by (auto simp: post_tasks_def pool_query_def sent)
      qed
    qed
    have accepted: "resolves (field b ''user_id'') s
              \<and> \<not> isl (varchar_not_null ''title'' 200 (escape (field b ''title'')))
              \<and> \<not> isl (text_null ''description'' (escape (field b ''description'')))
             \<longrightarrow> code (fst (post_tasks Up now b s)) = 201"
      by (auto simp: post_tasks_def pool_query_def sent insert_task_def Let_def resolves_def
          enum_null_def status_named_def res_json_def split: sum.splits)
    from not_status stored accepted show ?thesis
      by (simp only: sent) simp
  qed
  have truthy_part:
    "post_tasks lk now b s =
           (case pool_query lk (insert_task now (escape (field b ''user_id''))
                   (escape (field b ''title'')) (escape (field b ''description''))
                   (escape (field b ''status''))) s of
              (Inr insertId, s') \<Rightarrow> (res_json 201 (spread [(''id'', JNum insertId)] b), s')
            | (Inl e, s') \<Rightarrow> (res_error e, s'))
         \<and> (resolves (field b ''user_id'') s
              \<and> \<not> isl (varchar_not_null ''title'' 200 (escape (field b ''title'')))
              \<and> \<not> isl (text_null ''description'' (escape (field b ''description'')))
             \<longrightarrow>
               (case enum_null ''status'' (escape (field b ''status'')) of
                  Inl e \<Rightarrow> post_tasks Up now b s = (res_error e, s)
                | Inr m \<Rightarrow>
                    code (fst (post_tasks Up now b s)) = 201
                    \<and> (\<exists>r. tasks (snd (post_tasks Up now b s)) = tasks s @ [r]
                          \<and> t_status r = m)))"
    if truthy: "truthy (field b ''status'')"
  proof -
    have sent: "escape (or_else (field b ''status'') (JStr ''pending'')) = escape (field b ''status'')"
      using truthy by (simp add: or_else_def)
    have same: "post_tasks lk now b s =
           (case pool_query lk (insert_task now (escape (field b ''user_id''))
                   (escape (field b ''title'')) (escape (field b ''description''))
                   (escape (field b ''status''))) s of
              (Inr insertId, s') \<Rightarrow> (res_json 201 (spread [(''id'', JNum insertId)] b), s')
            | (Inl e, s') \<Rightarrow> (res_error e, s'))"
      by (simp add: post_tasks_def sent)
    have decided: "case enum_null ''status'' (escape (field b ''status'')) of
                  Inl e \<Rightarrow> post_tasks Up now b s = (res_error e, s)
                | Inr m \<Rightarrow>
                    code (fst (post_tasks Up now b s)) = 201
                    \<and> (\<exists>r. tasks (snd (post_tasks Up now b s)) = tasks s @ [r]
                          \<and> t_status r = m)"
      if ok: "resolves (field b ''user_id'') s"
        "\<not> isl (varchar_not_null ''title'' 200 (escape (field b ''title'')))"
        "\<not> isl (text_null ''description'' (escape (field b ''description'')))"
      using insert_task_accepted [OF ok, where st = "escape (field b ''status'')" and now = now]
      by (auto simp: post_tasks_def sent pool_query_def res_json_def split: sum.splits)
    from same decided show ?thesis
      by blast
  qed
  from falsy_values [of v] passed falsy_part truthy_part show ?thesis
    by blast
qed

theorem falsy_status_is_pending_witness:
  "\<not> truthy (field [(''user_id'', JNum 1), (''title'', JStr ''Write report''), (''status'', JStr [])]
               ''status'')
   \<and> \<not> truthy (JNum 0) \<and> \<not> truthy JNull \<and> \<not> truthy (JBool False)
   \<and> code (fst (post_tasks Up 12
        [(''user_id'', JNum 1), (''title'', JStr ''Write report''), (''status'', JStr [])] store1)) = 201
   \<and> tasks (snd (post_tasks Up 12
        [(''user_id'', JNum 1), (''title'', JStr ''Write report''), (''status'', JStr [])] store1))
       = [report]
   \<and> tasks (snd (post_tasks Up 12
        [(''user_id'', JNum 1), (''title'', JStr ''Write report''), (''status'', JNum 0)] store1))
       = [report]
   \<and> truthy (field [(''user_id'', JNum 1), (''title'', JStr ''Write report''),
                    (''status'', JStr ''done'')] ''status'')
   \<and> post_tasks Up 12
        [(''user_id'', JNum 1), (''title'', JStr ''Write report''), (''status'', JStr ''done'')] store1
       = (res_error (DataTruncated ''status''), store1)
   \<and> tasks (snd (post_tasks Up 12
        [(''user_id'', JNum 1), (''title'', JStr ''Write report''), (''status'', JStr ''completed'')]
        store1))
       = [report\<lparr>t_status := Some Completed\<rparr>]"
proof -
  let ?empty = "[(''user_id'', JNum 1), (''title'', JStr ''Write report''), (''status'', JStr [])]"
  let ?done = "[(''user_id'', JNum 1), (''title'', JStr ''Write report''), (''status'', JStr ''done'')]"
  have falsy: "\<not> truthy (field ?empty ''status'')"
    by (simp add: field_def)
  have falsy_more: "\<not> truthy (JNum 0)" "\<not> truthy JNull" "\<not> truthy (JBool False)"
    using falsy_status_is_pending [of "JNum 0"] falsy_status_is_pending [of JNull]
      falsy_status_is_pending [of "JBool False"]
    by simp_all
  have owner: "resolves (field ?empty ''user_id'') store1"
    by (simp add: field_def resolves_def int_not_null_def store1_def ann_def)
  have title: "\<not> isl (varchar_not_null ''title'' 200 (escape (field ?empty ''title'')))"
    by (simp add: field_def varchar_not_null_def fit_def)
  have descr: "\<not> isl (text_null ''description'' (escape (field ?empty ''description'')))"
    by (simp add: field_def text_null_def)
  have code: "code (fst (post_tasks Up 12 ?empty store1)) = 201"
    using falsy_status_is_pending [where s = store1 and now = 12 and b = ?empty and lk = Up
        and v = JNull]
      falsy owner title descr
    by blast
  have rows: "tasks (snd (post_tasks Up 12 ?empty store1)) = [report]"
    "tasks (snd (post_tasks Up 12
        [(''user_id'', JNum 1), (''title'', JStr ''Write report''), (''status'', JNum 0)] store1))
       = [report]"
    "tasks (snd (post_tasks Up 12
        [(''user_id'', JNum 1), (''title'', JStr ''Write report''), (''status'', JStr ''completed'')]
        store1))
       = [report\<lparr>t_status := Some Completed\<rparr>]"
    by (simp_all add: post_tasks_def pool_query_def insert_task_def field_def int_not_null_def
        varchar_not_null_def text_null_def enum_null_def status_named_def or_else_def fit_def
        store1_def ann_def report_def)
  have truthy: "truthy (field ?done ''status'')"
    by (simp add: field_def)
  have owner': "resolves (field ?done ''user_id'') store1"
    by (simp add: field_def resolves_def int_not_null_def store1_def ann_def)
  have title': "\<not> isl (varchar_not_null ''title'' 200 (escape (field ?done ''title'')))"
    by (simp add: field_def varchar_not_null_def fit_def)
  have descr': "\<not> isl (text_null ''description'' (escape (field ?done ''description'')))"
    by (simp add: field_def text_null_def)
  have enum: "enum_null ''status'' (escape (field ?done ''status'')) = Inl (DataTruncated ''status'')"
    by (simp add: field_def enum_null_def status_named_def int_of_text_def digit_val_def)
  have "case enum_null ''status'' (escape (field ?done ''status'')) of
          Inl e \<Rightarrow> post_tasks Up 12 ?done store1 = (res_error e, store1)
        | Inr m \<Rightarrow>
            code (fst (post_tasks Up 12 ?done store1)) = 201
            \<and> (\<exists>r. tasks (snd (post_tasks Up 12 ?done store1)) = tasks store1 @ [r]
                  \<and> t_status r = m)"
    using falsy_status_is_pending [where s = store1 and now = 12 and b = ?done and lk = Up
        and v = JNull]
      truthy owner' title' descr'
    by blast
  then have refused:
    "post_tasks Up 12 ?done store1 = (res_error (DataTruncated ''status''), store1)"
    by (simp only: enum sum.case)
  from falsy falsy_more code rows truthy refused show ?thesis
    by simp
qed

end
